theory Spec2Isabelle
  imports Main
begin

section \<open>Strings\<close>

text \<open>
  Python strings are modelled as \<^typ>\<open>string\<close>, the UTF-8 bytes of the text. Every
  separator and every character the program looks for is ASCII, and an ASCII byte never
  occurs inside the encoding of another code point, so splitting and replacing on the
  bytes is splitting and replacing on the code points.
\<close>

text \<open>
  \<^verbatim>\<open>s.split(sep)\<close>: the pieces of \<open>s\<close> between the occurrences of \<open>sep\<close>, scanned
  from the left without overlap. \<open>cur\<close> is the piece being read. Python raises
  ValueError on an empty separator; the program only splits on the literals
  \<^verbatim>\<open>'://'\<close>, \<^verbatim>\<open>'?'\<close>, \<^verbatim>\<open>'#'\<close>, \<^verbatim>\<open>'/'\<close> and \<^verbatim>\<open>'.'\<close>.
\<close>

function split_from :: "string \<Rightarrow> string \<Rightarrow> string \<Rightarrow> string list" where
  "split_from sep cur [] = [cur]"
| "split_from sep cur (c # cs) =
     (if sep \<noteq> [] \<and> take (length sep) (c # cs) = sep
      then cur # split_from sep [] (drop (length sep) (c # cs))
      else split_from sep (cur @ [c]) cs)"
  by pat_completeness auto
termination
  by (relation "measure (\<lambda>(sep, cur, s). length s)") auto

definition py_split :: "string \<Rightarrow> string \<Rightarrow> string list" where
  "py_split s sep = split_from sep [] s"

text \<open>
  \<^verbatim>\<open>s.rsplit(sep, 1)\<close> for a one-character separator: at most one split, at the last
  occurrence.
\<close>

definition py_rsplit1 :: "string \<Rightarrow> char \<Rightarrow> string list" where
  "py_rsplit1 s c =
     (if c \<in> set s
      then [rev (drop 1 (dropWhile (\<lambda>x. x \<noteq> c) (rev s))), rev (takeWhile (\<lambda>x. x \<noteq> c) (rev s))]
      else [s])"

text \<open>The character class of \<^verbatim>\<open>re.sub(r'[<>:"/\\|?*]', '_', filename)\<close>.\<close>

definition illegal_chars :: "char list" where
  "illegal_chars =
     [CHR ''<'', CHR ''>'', CHR '':'', CHR 0x22, CHR ''/'', CHR 0x5C, CHR ''|'', CHR ''?'', CHR ''*'']"

definition re_sub_illegal :: "string \<Rightarrow> string" where
  "re_sub_illegal s = map (\<lambda>c. if c \<in> set illegal_chars then CHR ''_'' else c) s"

section \<open>Deriving a file name from a URL\<close>

text \<open>
  \<^verbatim>\<open>MarkdownMerger.get_filename_from_url\<close>. Every index read of the source is in
  range: \<^verbatim>\<open>split\<close> never returns an empty list, so \<^verbatim>\<open>[-1]\<close> and \<^verbatim>\<open>[0]\<close> exist, and
  \<^verbatim>\<open>path_parts[-2]\<close> is read only when there are two parts.
\<close>

definition get_filename_from_url :: "string \<Rightarrow> string" where
  "get_filename_from_url url =
     (let path = hd (py_split (hd (py_split (last (py_split url ''://'')) ''?'')) ''#'');
          parts = py_split path ''/'';
          domain = (if parts \<noteq> [] then hd parts else ''page'');
          path_parts = filter (\<lambda>p. p \<noteq> []) (drop 1 parts);
          filename =
            (if 2 \<le> length path_parts
             then path_parts ! (length path_parts - 2) @ ''_'' @ last path_parts
             else if length path_parts = 1
             then hd (py_split domain ''.'') @ ''_'' @ hd path_parts
             else hd (py_split domain ''.''));
          cleaned = re_sub_illegal filename;
          stem = (if CHR ''.'' \<in> set cleaned then hd (py_rsplit1 cleaned CHR ''.'') else cleaned)
      in if stem \<noteq> [] then stem else ''page'')"

subsection \<open>The derivation as the specification words it\<close>

text \<open>
  The eight steps of the specification's filename derivation, written from its words and
  independently of the Python above: (1) strip the scheme prefix, the query string and
  the fragment; (2) split on \<open>/\<close> into the host and the non-empty path segments; (3) to
  (5) pick the base name by the number of path segments; (6) replace the illegal
  characters; (7) truncate at the last \<open>.\<close>; (8) fall back to \<open>page\<close>.
\<close>

fun after_first :: "string \<Rightarrow> string \<Rightarrow> string option" where
  "after_first sep [] = None"
| "after_first sep (c # cs) =
     (if take (length sep) (c # cs) = sep then Some (drop (length sep) (c # cs))
      else after_first sep cs)"

definition strip_scheme :: "string \<Rightarrow> string" where
  "strip_scheme url = (case after_first ''://'' url of Some rest \<Rightarrow> rest | None \<Rightarrow> url)"

definition strip_query_fragment :: "string \<Rightarrow> string" where
  "strip_query_fragment s = takeWhile (\<lambda>c. c \<noteq> CHR ''?'' \<and> c \<noteq> CHR ''#'') s"

fun segments :: "string \<Rightarrow> string list" where
  "segments [] = [[]]"
| "segments (c # cs) =
     (if c = CHR ''/'' then [] # segments cs
      else (case segments cs of [] \<Rightarrow> [[c]] | p # ps \<Rightarrow> (c # p) # ps))"

definition first_label :: "string \<Rightarrow> string" where
  "first_label host = takeWhile (\<lambda>c. c \<noteq> CHR ''.'') host"

fun truncate_at_last_dot :: "string \<Rightarrow> string" where
  "truncate_at_last_dot [] = []"
| "truncate_at_last_dot (c # cs) =
     (if CHR ''.'' \<in> set cs then c # truncate_at_last_dot cs
      else if c = CHR ''.'' then [] else c # cs)"

definition deriveName :: "string \<Rightarrow> string" where
  "deriveName url =
     (let segs = segments (strip_query_fragment (strip_scheme url));
          host = hd segs;
          path_segments = filter (\<lambda>p. p \<noteq> []) (tl segs);
          n = length path_segments;
          base =
            (if 2 \<le> n then path_segments ! (n - 2) @ ''_'' @ path_segments ! (n - 1)
             else if n = 1 then first_label host @ ''_'' @ path_segments ! 0
             else first_label host);
          name = truncate_at_last_dot (re_sub_illegal base)
      in if name = [] then ''page'' else name)"

section \<open>Decimal numerals\<close>

text \<open>
  \<^verbatim>\<open>str(n)\<close> and \<^verbatim>\<open>f"{n}"\<close> for a Python int that is a count, a length or the collision
  counter, none of which is ever negative: the decimal digits of \<open>n\<close>.
\<close>

definition digit_char :: "nat \<Rightarrow> char" where
  "digit_char d = ''0123456789'' ! d"

fun py_str :: "nat \<Rightarrow> string" where
  "py_str n = (if n < 10 then [digit_char n] else py_str (n div 10) @ [digit_char (n mod 10)])"

declare py_str.simps [simp del]

text \<open>Reading a decimal numeral back, to show that distinct counters give distinct names.\<close>

definition digit_val :: "char \<Rightarrow> nat" where
  "digit_val c = of_char c - 48"

definition read_decimal :: "string \<Rightarrow> nat" where
  "read_decimal s = foldl (\<lambda>a c. 10 * a + digit_val c) 0 s"

lemma digit_val_digit_char: "d < 10 \<Longrightarrow> digit_val (digit_char d) = d"
proof -
  assume "d < 10"
  then consider "d = 0" | "d = 1" | "d = 2" | "d = 3" | "d = 4"
    | "d = 5" | "d = 6" | "d = 7" | "d = 8" | "d = 9"
    by atomize_elim arith
  then show ?thesis
    by cases (simp_all add: digit_char_def digit_val_def)
qed

lemma read_decimal_py_str: "read_decimal (py_str n) = n"
proof (induction n rule: py_str.induct)
  case (1 n)
  show ?case
  proof (cases "n < 10")
    case True
    then show ?thesis
      by (simp add: py_str.simps [of n] read_decimal_def digit_val_digit_char)
  next
    case False
    with "1" have "read_decimal (py_str (n div 10)) = n div 10" by simp
    with False show ?thesis
      by (simp add: py_str.simps [of n] read_decimal_def digit_val_digit_char)
  qed
qed

lemma py_str_inj: "py_str m = py_str n \<Longrightarrow> m = n"
  by (metis read_decimal_py_str)

section \<open>The batch fetcher\<close>

text \<open>
  \<^verbatim>\<open>FetchThread\<close>. The HTTP client and the HTML converter are libraries: what they
  return is a parameter of the model. An exception is the value it carries for the
  program, its \<^verbatim>\<open>str(e)\<close>; only exceptions that \<^verbatim>\<open>except Exception\<close> catches are
  modelled. The network answers differently at different times and the worker uses one
  \<^verbatim>\<open>HTML2Text\<close> object for all pages, so \<^verbatim>\<open>requests.get\<close> and \<^verbatim>\<open>self.h.handle\<close> take
  and return the state \<open>'w\<close> of the world, which holds the network and the converter.
\<close>

datatype py_exception = PyException (py_str_of: string)

record response =
  status_code :: int
  body :: string

text \<open>
  \<open>http_error\<close> is the \<^verbatim>\<open>HTTPError\<close> that \<^verbatim>\<open>raise_for_status\<close> builds for a response, and
  \<open>apparent_text\<close> is \<^verbatim>\<open>response.text\<close> after \<^verbatim>\<open>response.encoding = response.apparent_encoding\<close>.
\<close>

record 'w collaborators =
  requests_get :: "string \<Rightarrow> 'w \<Rightarrow> (py_exception + response) \<times> 'w"
  http_error :: "response \<Rightarrow> py_exception"
  apparent_text :: "response \<Rightarrow> py_exception + string"
  handle :: "string \<Rightarrow> 'w \<Rightarrow> (py_exception + string) \<times> 'w"

text \<open>
  \<^verbatim>\<open>Response.raise_for_status\<close> of the requests library, modelled from the library's
  documentation: it raises for a status from 400 to 599 (client and server errors) and
  returns for every other status.
\<close>

definition raise_for_status :: "'w collaborators \<Rightarrow> response \<Rightarrow> py_exception option" where
  "raise_for_status env r =
     (if 400 \<le> status_code r \<and> status_code r < 600 then Some (http_error env r) else None)"

definition is_2xx :: "response \<Rightarrow> bool" where
  "is_2xx r = (200 \<le> status_code r \<and> status_code r < 300)"

text \<open>One entry of \<^verbatim>\<open>results\<close>: the dict with the keys url, content and success.\<close>

record fetch_result =
  url :: string
  content :: string
  success :: bool

text \<open>
  What the worker does that an observer sees: the requests it issues and the two
  signals it emits, \<^verbatim>\<open>progress(int, int)\<close> and \<^verbatim>\<open>finished(list)\<close>.
\<close>

datatype event =
  HttpGet string
  | Progress nat nat
  | Finished "fetch_result list"

text \<open>The literal \<^verbatim>\<open>f'...: {str(e)}'\<close>: U+9519 U+8BEF (error), a colon and a space.\<close>

definition error_prefix :: string where
  "error_prefix = [CHR 0xE9, CHR 0x94, CHR 0x99, CHR 0xE8, CHR 0xAF, CHR 0xAF] @ '': ''"

text \<open>The body of the \<^verbatim>\<open>try\<close>: \<open>Inl e\<close> when one of its calls raises \<open>e\<close>.\<close>

definition try_fetch :: "'w collaborators \<Rightarrow> string \<Rightarrow> 'w \<Rightarrow> (py_exception + string) \<times> 'w" where
  "try_fetch env u w =
     (case requests_get env u w of
        (Inl e, w') \<Rightarrow> (Inl e, w')
      | (Inr resp, w') \<Rightarrow>
          (case raise_for_status env resp of
             Some e \<Rightarrow> (Inl e, w')
           | None \<Rightarrow>
               (case apparent_text env resp of
                  Inl e \<Rightarrow> (Inl e, w')
                | Inr t \<Rightarrow> handle env t w')))"

text \<open>The \<^verbatim>\<open>try\<close> with its \<^verbatim>\<open>except\<close>: the result appended for one URL.\<close>

definition fetch_one :: "'w collaborators \<Rightarrow> string \<Rightarrow> 'w \<Rightarrow> fetch_result \<times> 'w" where
  "fetch_one env u w =
     (case try_fetch env u w of
        (Inr markdown_content, w') \<Rightarrow>
          (\<lparr>url = u, content = markdown_content, success = True\<rparr>, w')
      | (Inl e, w') \<Rightarrow>
          (\<lparr>url = u, content = error_prefix @ py_str_of e, success = False\<rparr>, w'))"

text \<open>
  The loop of \<^verbatim>\<open>run\<close> over \<^verbatim>\<open>enumerate(self.urls)\<close>; \<open>n\<close> is \<^verbatim>\<open>len(self.urls)\<close>, which
  no one changes while the worker runs, \<open>results\<close> the list being built and \<open>trace\<close>
  the events so far.
\<close>

fun run_loop ::
  "'w collaborators \<Rightarrow> nat \<Rightarrow> (nat \<times> string) list \<Rightarrow> fetch_result list \<Rightarrow> event list \<Rightarrow> 'w
     \<Rightarrow> fetch_result list \<times> event list \<times> 'w" where
  "run_loop env n [] results trace w = (results, trace, w)"
| "run_loop env n ((i, u) # rest) results trace w =
     (case fetch_one env u w of
        (r, w') \<Rightarrow>
          run_loop env n rest (results @ [r]) (trace @ [HttpGet u, Progress (i + 1) n]) w')"

definition run :: "'w collaborators \<Rightarrow> string list \<Rightarrow> 'w \<Rightarrow> event list \<times> 'w" where
  "run env urls w =
     (case run_loop env (length urls) (enumerate 0 urls) [] [] w of
        (results, trace, w') \<Rightarrow> (trace @ [Finished results], w'))"

text \<open>What an observer of the signals receives.\<close>

fun is_signal :: "event \<Rightarrow> bool" where
  "is_signal (HttpGet u) = False"
| "is_signal (Progress i n) = True"
| "is_signal (Finished rs) = True"

definition signals :: "event list \<Rightarrow> event list" where
  "signals trace = filter is_signal trace"

definition emitted_batches :: "event list \<Rightarrow> fetch_result list list" where
  "emitted_batches trace = concat (map (\<lambda>e. case e of Finished rs \<Rightarrow> [rs] | _ \<Rightarrow> []) trace)"

text \<open>
  The world before the worker turns to the URL at index \<open>i\<close>, and the batch as a
  function of the URL list: the reference the loop is compared with.
\<close>

fun world_after :: "'w collaborators \<Rightarrow> string list \<Rightarrow> 'w \<Rightarrow> 'w" where
  "world_after env [] w = w"
| "world_after env (u # us) w = world_after env us (snd (fetch_one env u w))"

fun fetch_all :: "'w collaborators \<Rightarrow> string list \<Rightarrow> 'w \<Rightarrow> fetch_result list" where
  "fetch_all env [] w = []"
| "fetch_all env (u # us) w = fst (fetch_one env u w) # fetch_all env us (snd (fetch_one env u w))"

section \<open>The interactive session\<close>

text \<open>
  \<^verbatim>\<open>MarkdownMerger\<close>. A button, the progress bar and the status bar are the values last
  set on them, and \<open>preview_text\<close> is the string last given to the preview's
  \<^verbatim>\<open>setPlainText\<close>. Python lists are objects:
  \<open>heap\<close> maps an address to the list stored there, \<open>next_addr\<close> is the first address
  not yet used, and \<open>url_list\<close> and the worker's \<^verbatim>\<open>self.urls\<close> are addresses, so that
  whether the worker shares the live list with the window is a fact of the model and
  not an assumption. \<open>fetch_thread\<close> is the address of \<^verbatim>\<open>self.fetch_thread.urls\<close>, and
  \<open>shown\<close> the message boxes shown so far.
\<close>

datatype msgbox =
  Warning string string
  | Information string string
  | Critical string string

record session =
  heap :: "nat \<Rightarrow> string list"
  next_addr :: nat
  url_list :: nat
  url_list_widget :: "string list"
  markdown_results :: "fetch_result list"
  preview_text :: string
  merge_checked :: bool
  fetch_btn_enabled :: bool
  save_btn_enabled :: bool
  progress_visible :: bool
  progress_value :: int
  progress_maximum :: int
  status_message :: string
  fetch_thread :: "nat option"
  shown :: "msgbox list"

subsection \<open>The literals of the user interface\<close>

text \<open>
  The Chinese literals of the source, as their UTF-8 bytes: ready (U+5C31 U+7EEA);
  added (U+5DF2 U+6DFB U+52A0); invalid URL (U+65E0 U+6548 URL) and its explanation;
  notice (U+63D0 U+793A); add a URL first (U+8BF7 U+5148 U+6DFB U+52A0 URL);
  fetching (U+6B63 U+5728 U+6293 U+53D6); fetch (U+6293 U+53D6); done (U+5B8C U+6210);
  succeeded (U+6210 U+529F); saved to (U+5DF2 U+4FDD U+5B58 U+5230); error
  (U+9519 U+8BEF); saving failed (U+4FDD U+5B58 U+5931 U+8D25); saved
  (U+6210 U+529F U+4FDD U+5B58); files to (U+4E2A U+6587 U+4EF6 U+5230).
\<close>

definition txt_ready :: string where
  "txt_ready = [CHR 0xE5, CHR 0xB0, CHR 0xB1, CHR 0xE7, CHR 0xBB, CHR 0xAA]"

definition txt_added :: string where
  "txt_added = [CHR 0xE5, CHR 0xB7, CHR 0xB2, CHR 0xE6, CHR 0xB7, CHR 0xBB, CHR 0xE5, CHR 0x8A, CHR 0xA0] @ '': ''"

definition txt_invalid_url :: string where
  "txt_invalid_url = [CHR 0xE6, CHR 0x97, CHR 0xA0, CHR 0xE6, CHR 0x95, CHR 0x88] @ ''URL''"

definition txt_url_must_start :: string where
  "txt_url_must_start =
     ''URL'' @ [CHR 0xE5, CHR 0xBF, CHR 0x85, CHR 0xE9, CHR 0xA1, CHR 0xBB, CHR 0xE4, CHR 0xBB, CHR 0xA5] @ ''http://'' @ [CHR 0xE6, CHR 0x88, CHR 0x96] @ ''https://'' @ [CHR 0xE5, CHR 0xBC, CHR 0x80, CHR 0xE5, CHR 0xA4, CHR 0xB4]"

definition txt_notice :: string where
  "txt_notice = [CHR 0xE6, CHR 0x8F, CHR 0x90, CHR 0xE7, CHR 0xA4, CHR 0xBA]"

definition txt_add_url_first :: string where
  "txt_add_url_first = [CHR 0xE8, CHR 0xAF, CHR 0xB7, CHR 0xE5, CHR 0x85, CHR 0x88, CHR 0xE6, CHR 0xB7, CHR 0xBB, CHR 0xE5, CHR 0x8A, CHR 0xA0] @ ''URL''"

definition txt_fetching :: string where
  "txt_fetching = [CHR 0xE6, CHR 0xAD, CHR 0xA3, CHR 0xE5, CHR 0x9C, CHR 0xA8, CHR 0xE6, CHR 0x8A, CHR 0x93, CHR 0xE5, CHR 0x8F, CHR 0x96] @ ''...''"

definition txt_fetch :: string where
  "txt_fetch = [CHR 0xE6, CHR 0x8A, CHR 0x93, CHR 0xE5, CHR 0x8F, CHR 0x96] @ '': ''"

definition txt_done_colon :: string where
  "txt_done_colon = [CHR 0xE5, CHR 0xAE, CHR 0x8C, CHR 0xE6, CHR 0x88, CHR 0x90] @ '': ''"

definition txt_succeeded_suffix :: string where
  "txt_succeeded_suffix = '' '' @ [CHR 0xE6, CHR 0x88, CHR 0x90, CHR 0xE5, CHR 0x8A, CHR 0x9F]"

definition txt_success :: string where
  "txt_success = [CHR 0xE6, CHR 0x88, CHR 0x90, CHR 0xE5, CHR 0x8A, CHR 0x9F]"

definition txt_saved_to :: string where
  "txt_saved_to = [CHR 0xE5, CHR 0xB7, CHR 0xB2, CHR 0xE4, CHR 0xBF, CHR 0x9D, CHR 0xE5, CHR 0xAD, CHR 0x98, CHR 0xE5, CHR 0x88, CHR 0xB0] @ '':\<newline>''"

definition txt_error :: string where
  "txt_error = [CHR 0xE9, CHR 0x94, CHR 0x99, CHR 0xE8, CHR 0xAF, CHR 0xAF]"

definition txt_save_failed_colon :: string where
  "txt_save_failed_colon = [CHR 0xE4, CHR 0xBF, CHR 0x9D, CHR 0xE5, CHR 0xAD, CHR 0x98, CHR 0xE5, CHR 0xA4, CHR 0xB1, CHR 0xE8, CHR 0xB4, CHR 0xA5] @ '':\<newline>''"

definition txt_save_failed :: string where
  "txt_save_failed = [CHR 0xE4, CHR 0xBF, CHR 0x9D, CHR 0xE5, CHR 0xAD, CHR 0x98, CHR 0xE5, CHR 0xA4, CHR 0xB1, CHR 0xE8, CHR 0xB4, CHR 0xA5] @ '' ''"

definition txt_done :: string where
  "txt_done = [CHR 0xE5, CHR 0xAE, CHR 0x8C, CHR 0xE6, CHR 0x88, CHR 0x90]"

definition txt_saved :: string where
  "txt_saved = [CHR 0xE6, CHR 0x88, CHR 0x90, CHR 0xE5, CHR 0x8A, CHR 0x9F, CHR 0xE4, CHR 0xBF, CHR 0x9D, CHR 0xE5, CHR 0xAD, CHR 0x98] @ '' ''"

definition txt_files_to :: string where
  "txt_files_to = '' '' @ [CHR 0xE4, CHR 0xB8, CHR 0xAA, CHR 0xE6, CHR 0x96, CHR 0x87, CHR 0xE4, CHR 0xBB, CHR 0xB6, CHR 0xE5, CHR 0x88, CHR 0xB0] @ '':\<newline>''"

subsection \<open>Construction and the URL list\<close>

text \<open>
  \<^verbatim>\<open>__init__\<close> and \<^verbatim>\<open>init_ui\<close>: both lists empty, the merged mode checked, the save
  button disabled, the progress bar hidden (its value and maximum are Qt's defaults).
\<close>

definition init_session :: session where
  "init_session =
     \<lparr>heap = (\<lambda>a. []), next_addr = 1, url_list = 0, url_list_widget = [],
      markdown_results = [], preview_text = [], merge_checked = True,
      fetch_btn_enabled = True, save_btn_enabled = False, progress_visible = False,
      progress_value = - 1, progress_maximum = 100, status_message = txt_ready,
      fetch_thread = None, shown = []\<rparr>"

definition py_startswith :: "string \<Rightarrow> string \<Rightarrow> bool" where
  "py_startswith s p = (take (length p) s = p)"

text \<open>
  \<^verbatim>\<open>add_url\<close>; \<open>typed\<close> is \<^verbatim>\<open>self.url_input.text().strip()\<close>. \<^verbatim>\<open>append\<close> changes the
  list object in place.
\<close>

definition add_url :: "string \<Rightarrow> session \<Rightarrow> session" where
  "add_url typed s =
     (if typed \<noteq> [] then
        (if py_startswith typed ''http://'' \<or> py_startswith typed ''https://''
         then s\<lparr>heap := (heap s)(url_list s := heap s (url_list s) @ [typed]),
                url_list_widget := url_list_widget s @ [typed],
                status_message := txt_added @ typed\<rparr>
         else s\<lparr>shown := shown s @ [Warning txt_invalid_url txt_url_must_start]\<rparr>)
      else s)"

text \<open>
  \<^verbatim>\<open>remove_url\<close>; \<open>current_row\<close> is \<^verbatim>\<open>self.url_list_widget.currentRow()\<close>. \<^verbatim>\<open>pop\<close>
  raises IndexError past the end of the list, before anything is changed.
\<close>

datatype py_error = IndexError

definition pop_at :: "nat \<Rightarrow> 'a list \<Rightarrow> 'a list" where
  "pop_at i xs = take i xs @ drop (Suc i) xs"

definition remove_url :: "int \<Rightarrow> session \<Rightarrow> py_error + session" where
  "remove_url current_row s =
     (if 0 \<le> current_row then
        (if nat current_row < length (heap s (url_list s))
         then Inr (s\<lparr>heap := (heap s)(url_list s := pop_at (nat current_row) (heap s (url_list s))),
                     url_list_widget := pop_at (nat current_row) (url_list_widget s)\<rparr>)
         else Inl IndexError)
      else Inr s)"

definition clear_urls :: "session \<Rightarrow> session" where
  "clear_urls s = s\<lparr>heap := (heap s)(url_list s := []), url_list_widget := []\<rparr>"

text \<open>
  What the user can do to the URL list while a fetch runs (the fetch button is
  disabled until it completes). An exception in a slot leaves the session as it was.
\<close>

datatype gui_action = AddUrl string | RemoveUrl int | ClearUrls

fun gui_step :: "session \<Rightarrow> gui_action \<Rightarrow> session" where
  "gui_step s (AddUrl typed) = add_url typed s"
| "gui_step s (RemoveUrl current_row) =
     (case remove_url current_row s of Inl e \<Rightarrow> s | Inr s' \<Rightarrow> s')"
| "gui_step s ClearUrls = clear_urls s"

subsection \<open>Fetching\<close>

text \<open>
  \<^verbatim>\<open>start_fetch\<close>. \<^verbatim>\<open>self.url_list.copy()\<close> is a new list object, at the next free
  address, and the worker is constructed on it.
\<close>

definition start_fetch :: "session \<Rightarrow> session" where
  "start_fetch s =
     (if heap s (url_list s) = []
      then s\<lparr>shown := shown s @ [Warning txt_notice txt_add_url_first]\<rparr>
      else s\<lparr>fetch_btn_enabled := False,
              save_btn_enabled := False,
              progress_visible := True,
              progress_value := 0,
              progress_maximum := int (length (heap s (url_list s))),
              heap := (heap s)(next_addr s := heap s (url_list s)),
              next_addr := next_addr s + 1,
              fetch_thread := Some (next_addr s),
              status_message := txt_fetching\<rparr>)"

definition update_progress :: "nat \<Rightarrow> nat \<Rightarrow> session \<Rightarrow> session" where
  "update_progress current total_urls s =
     s\<lparr>progress_value := int current,
       status_message := txt_fetch @ py_str current @ ''/'' @ py_str total_urls\<rparr>"

text \<open>The loop of \<^verbatim>\<open>fetch_completed\<close> that fills \<^verbatim>\<open>merged_content\<close>.\<close>

fun merged_loop :: "fetch_result list \<Rightarrow> string list \<Rightarrow> string list" where
  "merged_loop [] merged_content = merged_content"
| "merged_loop (result # rest) merged_content =
     merged_loop rest
       (merged_content @ [''# '' @ url result @ ''\<newline>\<newline>'', content result,
          ''\<newline>\<newline>---\<newline>\<newline>''])"

definition fetch_completed :: "fetch_result list \<Rightarrow> session \<Rightarrow> session" where
  "fetch_completed results s =
     (let success_count = length (filter success results);
          merged_content = merged_loop results []
      in s\<lparr>markdown_results := results,
            preview_text := concat merged_content,
            fetch_btn_enabled := True,
            save_btn_enabled := True,
            progress_visible := False,
            status_message :=
              txt_done_colon @ py_str success_count @ ''/'' @ py_str (length results)
                @ txt_succeeded_suffix\<rparr>)"

text \<open>
  The merged document in the specification's words: for every result, in batch order,
  a heading line with the URL, a blank line, the content, and a horizontal rule.
\<close>

definition merged_document :: "fetch_result list \<Rightarrow> string" where
  "merged_document results =
     concat (map (\<lambda>r. (''# '' @ url r @ ''\<newline>'') @ ''\<newline>'' @ content r
        @ ''\<newline>\<newline>---\<newline>\<newline>'') results)"

section \<open>Saving\<close>

text \<open>
  The file system is a finite table from paths to contents. \<open>UserPath p\<close> is the path
  the save dialog returned; \<open>InFolder folder name\<close> is \<^verbatim>\<open>Path(folder) / name\<close> for a
  name without a separator, which every name the program builds is. The table's first
  binding of a path is the file's content.
\<close>

datatype path = UserPath string | InFolder string string

type_synonym file_table = "(path \<times> string) list"

definition path_exists :: "file_table \<Rightarrow> path \<Rightarrow> bool" where
  "path_exists fs p = (map_of fs p \<noteq> None)"

definition put_file :: "path \<Rightarrow> string \<Rightarrow> file_table \<Rightarrow> file_table" where
  "put_file p c fs = (p, c) # filter (\<lambda>entry. fst entry \<noteq> p) fs"

text \<open>
  The file system can fail. \<^verbatim>\<open>Path.exists()\<close> returns whether the path is in the table, or
  raises: an error of \<^verbatim>\<open>stat\<close> other than the file being absent, such as a name too long
  for the file system, is raised again by it. Opening a file for writing and writing to
  it succeeds, or raises and leaves the file absent or unchanged (\<open>None\<close>) or with some
  content (\<open>Some partial\<close>). Which of these happens is a parameter: \<open>stat_error\<close> gives
  the exception \<^verbatim>\<open>exists()\<close> raises on a path, if any, and \<open>write_outcome\<close> tells how the
  write attempt with a given number ends. \<open>opened\<close> lists the paths
  \<^verbatim>\<open>open(file_path, 'w')\<close> was called on, which numbers the attempts, and \<open>printed\<close> the
  lines \<^verbatim>\<open>print\<close> wrote.
\<close>

datatype io_outcome = Written | WriteFailed py_exception "string option"

record disk =
  stat_error :: "path \<Rightarrow> py_exception option"
  write_outcome :: "nat \<Rightarrow> io_outcome"

record os_world =
  files :: file_table
  opened :: "path list"
  printed :: "string list"

definition write_attempt :: "io_outcome \<Rightarrow> path \<Rightarrow> string \<Rightarrow> os_world \<Rightarrow> os_world" where
  "write_attempt outcome p c w =
     w\<lparr>files :=
         (case outcome of
            Written \<Rightarrow> put_file p c (files w)
          | WriteFailed e None \<Rightarrow> files w
          | WriteFailed e (Some partial) \<Rightarrow> put_file p partial (files w)),
       opened := opened w @ [p]\<rparr>"

text \<open>The path \<^verbatim>\<open>Path(folder) / f"{filename}_{counter}.md"\<close>.\<close>

definition candidate :: "string \<Rightarrow> string \<Rightarrow> nat \<Rightarrow> path" where
  "candidate folder filename counter = InFolder folder (filename @ ''_'' @ py_str counter @ ''.md'')"

lemma candidate_inj: "candidate folder filename j = candidate folder filename k \<Longrightarrow> j = k"
  by (simp add: candidate_def py_str_inj)

lemma finite_candidates: "finite {k. counter \<le> k \<and> path_exists fs (candidate folder filename k)}"
proof -
  have "inj (candidate folder filename)"
    by (rule injI) (rule candidate_inj)
  then have "finite (candidate folder filename -` fst ` set fs)"
    by (simp add: finite_vimageI)
  moreover have "{k. counter \<le> k \<and> path_exists fs (candidate folder filename k)}
      \<subseteq> candidate folder filename -` fst ` set fs"
    by (auto simp: path_exists_def map_of_eq_None_iff)
  ultimately show ?thesis
    by (rule rev_finite_subset)
qed

lemma candidates_step:
  "{k. counter \<le> k \<and> path_exists fs (candidate folder filename k)} =
     (if path_exists fs (candidate folder filename counter) then {counter} else {})
       \<union> {k. Suc counter \<le> k \<and> path_exists fs (candidate folder filename k)}"
  by (auto simp: Suc_le_eq le_less)

text \<open>
  The \<^verbatim>\<open>while file_path.exists()\<close> loop, on its two variables: \<open>Inl e\<close> when \<^verbatim>\<open>exists()\<close>
  raises \<open>e\<close>, and otherwise the first path it finds absent. It ends because the table
  is finite and the names it tries are all different.
\<close>

function resolve_collision ::
  "disk \<Rightarrow> file_table \<Rightarrow> string \<Rightarrow> string \<Rightarrow> path \<Rightarrow> nat \<Rightarrow> py_exception + path" where
  "resolve_collision d fs folder filename file_path counter =
     (case stat_error d file_path of
        Some e \<Rightarrow> Inl e
      | None \<Rightarrow>
          (if path_exists fs file_path
           then resolve_collision d fs folder filename (candidate folder filename counter) (counter + 1)
           else Inr file_path))"
  by pat_completeness auto
termination
proof (relation "measure (\<lambda>(d, fs, folder, filename, file_path, counter).
    card {k. counter \<le> k \<and> path_exists fs (candidate folder filename k)}
      + (if path_exists fs file_path then 1 else 0))")
  show "wf (measure (\<lambda>(d, fs, folder, filename, file_path, counter).
    card {k. counter \<le> k \<and> path_exists fs (candidate folder filename k)}
      + (if path_exists fs file_path then 1 else 0)))"
    by simp
next
  fix d :: disk and fs :: file_table and folder filename :: string and file_path :: path
    and counter :: nat
  assume "path_exists fs file_path"
  let ?rest = "{k. Suc counter \<le> k \<and> path_exists fs (candidate folder filename k)}"
  have fin: "finite ?rest"
    by (rule finite_candidates)
  have "card {k. counter \<le> k \<and> path_exists fs (candidate folder filename k)} =
      card ?rest + (if path_exists fs (candidate folder filename counter) then 1 else 0)"
    using fin by (subst candidates_step) simp
  with \<open>path_exists fs file_path\<close>
  show "((d, fs, folder, filename, candidate folder filename counter, counter + 1),
         (d, fs, folder, filename, file_path, counter))
      \<in> measure (\<lambda>(d, fs, folder, filename, file_path, counter).
          card {k. counter \<le> k \<and> path_exists fs (candidate folder filename k)}
            + (if path_exists fs file_path then 1 else 0))"
    by simp
qed

declare resolve_collision.simps [simp del]

text \<open>
  The loop of the split branch over \<^verbatim>\<open>self.markdown_results\<close>. The collision loop stands
  outside the \<^verbatim>\<open>try\<close>: an exception of \<^verbatim>\<open>exists()\<close> leaves the loop and the method, with
  the files written so far (\<open>Inl e\<close>). The two \<^verbatim>\<open>f.write\<close> calls of a successful write
  leave the heading followed by the content; an exception inside the \<^verbatim>\<open>try\<close> is printed
  and the loop goes on. \<open>Inr n\<close> is the \<^verbatim>\<open>success_count\<close> the loop ends with.
\<close>

fun save_split_loop ::
  "disk \<Rightarrow> string \<Rightarrow> fetch_result list \<Rightarrow> nat \<Rightarrow> os_world \<Rightarrow> (py_exception + nat) \<times> os_world" where
  "save_split_loop d folder [] success_count w = (Inr success_count, w)"
| "save_split_loop d folder (result # rest) success_count w =
     (if success result then
        (let filename = get_filename_from_url (url result)
         in case resolve_collision d (files w) folder filename (InFolder folder (filename @ ''.md'')) 1 of
              Inl e \<Rightarrow> (Inl e, w)
            | Inr file_path \<Rightarrow>
                (case write_outcome d (length (opened w)) of
                   Written \<Rightarrow>
                     save_split_loop d folder rest (success_count + 1)
                       (write_attempt Written file_path
                          ((''# '' @ url result @ ''\<newline>\<newline>'') @ content result) w)
                 | WriteFailed e left \<Rightarrow>
                     save_split_loop d folder rest success_count
                       ((write_attempt (WriteFailed e left) file_path
                           ((''# '' @ url result @ ''\<newline>\<newline>'') @ content result) w)
                          \<lparr>printed := printed w @
                             [txt_save_failed @ filename @ '': '' @ py_str_of e]\<rparr>)))
      else save_split_loop d folder rest success_count w)"




text \<open>The text of the message box that ends a split save.\<close>

definition tally_message :: "nat \<Rightarrow> nat \<Rightarrow> string \<Rightarrow> string" where
  "tally_message saved_count total_count folder =
     txt_saved @ py_str saved_count @ ''/'' @ py_str total_count @ txt_files_to @ folder"

text \<open>
  What Qt returns to the program. The two dialogs return what the user chose, the
  empty string when the user cancelled. \<open>to_plain_text t\<close> is what
  \<^verbatim>\<open>self.preview_text.toPlainText()\<close> returns when \<open>t\<close> is the string last given to
  \<^verbatim>\<open>setPlainText\<close>: the widget keeps a document, not the string, and the way back is a
  parameter.
\<close>

record toolkit =
  save_file_name :: string
  existing_directory :: string
  to_plain_text :: "string \<Rightarrow> string"

text \<open>
  \<^verbatim>\<open>save_markdown\<close>: \<open>Inl e\<close> when the exception \<open>e\<close> leaves the method, which then has
  shown no message box, and otherwise the session it returns with.
\<close>

definition save_markdown ::
  "toolkit \<Rightarrow> disk \<Rightarrow> session \<Rightarrow> os_world \<Rightarrow> (py_exception + session) \<times> os_world" where
  "save_markdown ui d s w =
     (if markdown_results s = [] then (Inr s, w)
      else if merge_checked s then
        (let file_path = save_file_name ui
         in if file_path \<noteq> [] then
              (let content = to_plain_text ui (preview_text s)
               in case write_outcome d (length (opened w)) of
                    Written \<Rightarrow>
                      (Inr (s\<lparr>shown := shown s @
                               [Information txt_success (txt_saved_to @ file_path)]\<rparr>),
                       write_attempt Written (UserPath file_path) content w)
                  | WriteFailed e left \<Rightarrow>
                      (Inr (s\<lparr>shown := shown s @
                               [Critical txt_error (txt_save_failed_colon @ py_str_of e)]\<rparr>),
                       write_attempt (WriteFailed e left) (UserPath file_path) content w))
            else (Inr s, w))
      else
        (let folder = existing_directory ui
         in if folder \<noteq> [] then
              (case save_split_loop d folder (markdown_results s) 0 w of
                 (Inl e, w') \<Rightarrow> (Inl e, w')
               | (Inr success_count, w') \<Rightarrow>
                   (Inr (s\<lparr>shown := shown s @
                            [Information txt_done
                               (tally_message success_count (length (markdown_results s)) folder)]\<rparr>),
                    w'))
            else (Inr s, w)))"

text \<open>
  A preview widget for the examples, from Qt's documentation of \<^verbatim>\<open>toPlainText\<close>: a
  no-break space (U+00A0) comes back as a space, a line separator (U+2028) and a
  paragraph separator (U+2029) as a line feed, here on the UTF-8 bytes.
\<close>

function qt_plain_text :: "string \<Rightarrow> string" where
  "qt_plain_text [] = []"
| "qt_plain_text (c # cs) =
     (if take 2 (c # cs) = [CHR 0xC2, CHR 0xA0] then CHR '' '' # qt_plain_text (drop 1 cs)
      else if take 3 (c # cs) = [CHR 0xE2, CHR 0x80, CHR 0xA8]
              \<or> take 3 (c # cs) = [CHR 0xE2, CHR 0x80, CHR 0xA9]
      then CHR 0x0A # qt_plain_text (drop 2 cs)
      else c # qt_plain_text cs)"
  by pat_completeness auto
termination
  by (relation "measure length") auto


section \<open>Concrete inputs\<close>

text \<open>
  A network in which one host answers, one answers 404 and one does not answer; the
  world counts the requests made.
\<close>

definition example_env :: "nat collaborators" where
  "example_env =
     \<lparr>requests_get = (\<lambda>u w.
        (if u = ''https://ok.test/a'' then Inr \<lparr>status_code = 200, body = ''<p>hi</p>''\<rparr>
         else if u = ''https://bad.test/x'' then Inr \<lparr>status_code = 404, body = ''''\<rparr>
         else Inl (PyException ''timed out''), w + 1)),
      http_error = (\<lambda>r. PyException ''404 Client Error''),
      apparent_text = (\<lambda>r. Inr (body r)),
      handle = (\<lambda>t w. (Inr (''hi'' @ ''\<newline>''), w))\<rparr>"

text \<open>
  A network whose one host answers 304 Not Modified with an empty body, and one on which
  one host does not answer, one answers 503, one sends a page that cannot be decoded
  and the others a page that cannot be converted; the world counts the requests and the
  conversions.
\<close>

definition not_modified_env :: "nat collaborators" where
  "not_modified_env =
     \<lparr>requests_get = (\<lambda>u w. (Inr \<lparr>status_code = 304, body = ''''\<rparr>, w + 1)),
      http_error = (\<lambda>r. PyException ''error''),
      apparent_text = (\<lambda>r. Inr (body r)),
      handle = (\<lambda>t w. (Inr ''\<newline>'', w))\<rparr>"

definition broken_pages_env :: "nat collaborators" where
  "broken_pages_env =
     \<lparr>requests_get = (\<lambda>u w.
        (if u = ''http://down.test/'' then Inl (PyException ''timed out'')
         else if u = ''http://gone.test/'' then Inr \<lparr>status_code = 503, body = ''''\<rparr>
         else if u = ''http://bytes.test/'' then Inr \<lparr>status_code = 200, body = ''?''\<rparr>
         else if u = ''http://markup.test/'' then Inr \<lparr>status_code = 200, body = ''<p>''\<rparr>
         else Inr \<lparr>status_code = 200, body = ''fine''\<rparr>, w + 1)),
      http_error = (\<lambda>r. PyException ''503 Server Error''),
      apparent_text = (\<lambda>r. if body r = ''?'' then Inl (PyException ''cannot decode'') else Inr (body r)),
      handle = (\<lambda>t w. (if t = ''<p>'' then Inl (PyException ''bad markup'') else Inr t, w + 1))\<rparr>"

definition broken_urls :: "string list" where
  "broken_urls =
     [''http://down.test/'', ''http://gone.test/'', ''http://bytes.test/'', ''http://markup.test/'',
      ''http://fine.test/'']"

definition example_urls :: "string list" where
  "example_urls = [''https://ok.test/a'', ''https://bad.test/x'']"

definition ok_result :: fetch_result where
  "ok_result = \<lparr>url = ''https://ok.test/a'', content = ''hi'' @ ''\<newline>'', success = True\<rparr>"

definition bad_result :: fetch_result where
  "bad_result =
     \<lparr>url = ''https://bad.test/x'', content = error_prefix @ ''404 Client Error'', success = False\<rparr>"

definition guide_result :: fetch_result where
  "guide_result = \<lparr>url = ''https://example.com/docs/guide.html'', content = ''A'', success = True\<rparr>"


definition nbsp_result :: fetch_result where
  "nbsp_result =
     \<lparr>url = ''https://ok.test/a'', content = ''a'' @ [CHR 0xC2, CHR 0xA0] @ ''b'', success = True\<rparr>"

definition long_result :: fetch_result where
  "long_result =
     \<lparr>url = ''https://ok.test/'' @ replicate 300 CHR ''a'', content = ''C'', success = True\<rparr>"

definition empty_world :: os_world where
  "empty_world = \<lparr>files = [], opened = [], printed = []\<rparr>"

text \<open>
  The dialogs return a file and a directory, and the preview widget is the one of Qt's
  documentation.
\<close>

definition example_toolkit :: toolkit where
  "example_toolkit =
     \<lparr>save_file_name = ''merged.md'', existing_directory = ''out'', to_plain_text = qt_plain_text\<rparr>"

text \<open>
  A disk on which every write succeeds and \<^verbatim>\<open>exists()\<close> raises for a name of more than
  255 bytes, as a file system with that limit makes it.
\<close>

definition name_too_long :: "path \<Rightarrow> py_exception option" where
  "name_too_long p =
     (case p of
        InFolder folder name \<Rightarrow>
          if 255 < length name then Some (PyException ''[Errno 36] File name too long'') else None
      | UserPath f \<Rightarrow> None)"

definition example_disk :: disk where
  "example_disk = \<lparr>stat_error = name_too_long, write_outcome = (\<lambda>k. Written)\<rparr>"

text \<open>A session in which the user has added two URLs.\<close>

definition example_session :: session where
  "example_session =
     gui_step (gui_step init_session (AddUrl ''https://ok.test/a'')) (AddUrl ''https://bad.test/x'')"


definition mixed_merged_session :: session where
  "mixed_merged_session = fetch_completed [ok_result, bad_result] init_session"


definition long_split_session :: session where
  "long_split_session = (fetch_completed [long_result, ok_result] init_session)\<lparr>merge_checked := False\<rparr>"

definition nbsp_merged_session :: session where
  "nbsp_merged_session = fetch_completed [nbsp_result] init_session"

text \<open>A directory that already holds a file, and one in which two names are taken.\<close>

definition notes_world :: os_world where
  "notes_world = \<lparr>files = [(InFolder ''out'' ''notes.md'', ''keep'')], opened = [], printed = []\<rparr>"



section \<open>Properties of the file name derivation\<close>

lemma split_from_nonempty: "split_from sep cur s \<noteq> []"
  by (induction sep cur s rule: split_from.induct) auto

lemma py_split_nonempty: "py_split s sep \<noteq> []"
  by (simp add: py_split_def split_from_nonempty)

lemma re_sub_illegal_clean: "c \<in> set (re_sub_illegal s) \<Longrightarrow> c \<notin> set illegal_chars"
  by (auto simp: re_sub_illegal_def illegal_chars_def)

lemma re_sub_illegal_id: "set s \<inter> set illegal_chars = {} \<Longrightarrow> re_sub_illegal s = s"
  unfolding re_sub_illegal_def by (induction s) auto

lemma set_hd_py_rsplit1: "set (hd (py_rsplit1 s c)) \<subseteq> set s"
proof (cases "c \<in> set s")
  case True
  have "set (drop 1 (dropWhile (\<lambda>x. x \<noteq> c) (rev s))) \<subseteq> set (rev s)"
    by (meson set_drop_subset set_dropWhileD subsetD subsetI)
  with True show ?thesis by (simp add: py_rsplit1_def)
next
  case False
  then show ?thesis by (simp add: py_rsplit1_def)
qed

lemma get_filename_from_url_clean:
  "set (get_filename_from_url u) \<inter> set illegal_chars = {}"
proof -
  have page: "set ''page'' \<inter> set illegal_chars = {}"
    by (simp add: illegal_chars_def)
  have clean: "set (re_sub_illegal f) \<inter> set illegal_chars = {}" for f
    using re_sub_illegal_clean by blast
  have stem: "set (hd (py_rsplit1 (re_sub_illegal f) CHR ''.'')) \<inter> set illegal_chars = {}" for f
    using clean [of f] set_hd_py_rsplit1 [of "re_sub_illegal f" "CHR ''.''"] by blast
  show ?thesis
    unfolding get_filename_from_url_def Let_def
    using page clean stem by (simp only: split: if_splits) presburger
qed

subsection \<open>Where the program and the specification's algorithm agree\<close>

lemma split_from_no_sep:
  "sep \<noteq> [] \<Longrightarrow> after_first sep s = None \<Longrightarrow> split_from sep cur s = [cur @ s]"
  by (induction s arbitrary: cur) (simp_all split: if_splits)

lemma split_from_sep:
  "sep \<noteq> [] \<Longrightarrow> after_first sep s = Some rest \<Longrightarrow>
     \<exists>pre. split_from sep cur s = (cur @ pre) # split_from sep [] rest"
proof (induction s arbitrary: cur)
  case Nil
  then show ?case by simp
next
  case (Cons c cs)
  show ?case
  proof (cases "take (length sep) (c # cs) = sep")
    case True
    with Cons.prems have "split_from sep cur (c # cs) = (cur @ []) # split_from sep [] rest"
      by simp
    then show ?thesis by blast
  next
    case False
    with Cons.prems have "after_first sep cs = Some rest"
      by simp
    from Cons.IH [OF Cons.prems(1) this, of "cur @ [c]"] obtain pre where
      "split_from sep (cur @ [c]) cs = ((cur @ [c]) @ pre) # split_from sep [] rest"
      by blast
    with False have "split_from sep cur (c # cs) = (cur @ (c # pre)) # split_from sep [] rest"
      by simp
    then show ?thesis by blast
  qed
qed

lemma split_from_two_pieces:
  assumes "sep \<noteq> []" and "after_first sep s = Some rest"
  shows "2 \<le> length (split_from sep cur s)"
proof -
  from split_from_sep [OF assms, of cur] obtain pre where
    "split_from sep cur s = (cur @ pre) # split_from sep [] rest"
    by blast
  moreover have "split_from sep [] rest \<noteq> []"
    by (rule split_from_nonempty)
  ultimately show ?thesis
    by (cases "split_from sep [] rest") simp_all
qed

lemma last_py_split_scheme:
  assumes "length (py_split u ''://'') \<le> 2"
  shows "last (py_split u ''://'') = strip_scheme u"
proof (cases "after_first ''://'' u")
  case None
  then show ?thesis
    by (simp add: py_split_def strip_scheme_def split_from_no_sep)
next
  case (Some rest)
  from split_from_sep [OF _ Some, of "[]"] obtain pre where
    pieces: "split_from ''://'' [] u = pre # split_from ''://'' [] rest"
    by auto
  with assms have short: "length (split_from ''://'' [] rest) \<le> 1"
    by (simp add: py_split_def)
  have "after_first ''://'' rest = None"
  proof (cases "after_first ''://'' rest")
    case None
    then show ?thesis .
  next
    case (Some rest')
    from split_from_two_pieces [OF _ this, of "[]"] short show ?thesis
      by simp
  qed
  then have "split_from ''://'' [] rest = [rest]"
    by (simp add: split_from_no_sep)
  with pieces Some show ?thesis
    by (simp add: py_split_def strip_scheme_def)
qed

lemma hd_split_from_char: "hd (split_from [c] cur s) = cur @ takeWhile (\<lambda>x. x \<noteq> c) s"
  by (induction s arbitrary: cur) simp_all

lemma hd_py_split_char: "hd (py_split s [c]) = takeWhile (\<lambda>x. x \<noteq> c) s"
  by (simp add: py_split_def hd_split_from_char)

lemma takeWhile_twice:
  "takeWhile (\<lambda>x. x \<noteq> b) (takeWhile (\<lambda>x. x \<noteq> a) s) = takeWhile (\<lambda>x. x \<noteq> a \<and> x \<noteq> b) s"
  by (induction s) simp_all

lemma segments_nonempty: "segments s \<noteq> []"
  by (induction s) (simp_all split: list.splits)

lemma split_from_slash: "split_from ''/'' cur s = (cur @ hd (segments s)) # tl (segments s)"
proof (induction s arbitrary: cur)
  case Nil
  then show ?case by simp
next
  case (Cons c cs)
  obtain p ps where seg: "segments cs = p # ps"
    using segments_nonempty [of cs] by (cases "segments cs") simp_all
  show ?case
    by (cases "c = CHR ''/''") (simp_all add: Cons.IH seg)
qed

lemma py_split_slash: "py_split s ''/'' = segments s"
  using segments_nonempty [of s] by (simp add: py_split_def split_from_slash)

lemma truncate_at_last_dot_eq:
  "truncate_at_last_dot s =
     (if CHR ''.'' \<in> set s then hd (py_rsplit1 s CHR ''.'') else s)"
proof (induction s)
  case Nil
  then show ?case by simp
next
  case (Cons c cs)
  show ?case
  proof (cases "CHR ''.'' \<in> set cs")
    case True
    then have "dropWhile (\<lambda>x. x \<noteq> CHR ''.'') (rev cs @ [c]) = dropWhile (\<lambda>x. x \<noteq> CHR ''.'') (rev cs) @ [c]"
      by (simp add: dropWhile_append1)
    moreover from True have "Suc 0 - length (dropWhile (\<lambda>x. x \<noteq> CHR ''.'') (rev cs)) = 0"
      by (cases "dropWhile (\<lambda>x. x \<noteq> CHR ''.'') (rev cs)") auto
    ultimately show ?thesis
      using True Cons.IH by (simp add: py_rsplit1_def)
  next
    case False
    then have "dropWhile (\<lambda>x. x \<noteq> CHR ''.'') (rev cs @ [c]) = dropWhile (\<lambda>x. x \<noteq> CHR ''.'') [c]"
      by (intro dropWhile_append2) auto
    then have dot: "c = CHR ''.'' \<Longrightarrow> drop 1 (dropWhile (\<lambda>x. x \<noteq> CHR ''.'') (rev cs @ [c])) = []"
      by simp
    show ?thesis
    proof (cases "c = CHR ''.''")
      case True
      with False dot show ?thesis
        by (simp add: py_rsplit1_def del: dropWhile_append2 dropWhile_append3)
    next
      case c: False
      with False show ?thesis
        by (simp add: py_rsplit1_def)
    qed
  qed
qed

lemma pick_base_eq:
  "(if 2 \<le> length ps then ps ! (length ps - 2) @ ''_'' @ last ps
    else if length ps = 1 then d @ ''_'' @ hd ps else d) =
   (if 2 \<le> length ps then ps ! (length ps - 2) @ ''_'' @ ps ! (length ps - 1)
    else if length ps = 1 then d @ ''_'' @ ps ! 0 else d)"
  for ps :: "string list"
  by (cases ps) (simp_all add: last_conv_nth)

text \<open>
  On every URL with at most one \<open>://\<close> the program computes the specification's
  eight steps.
\<close>

lemma get_filename_from_url_single_scheme:
  assumes "length (py_split u ''://'') \<le> 2"
  shows "get_filename_from_url u = deriveName u"
proof -
  have path: "hd (py_split (hd (py_split (last (py_split u ''://'')) ''?'')) ''#'')
      = strip_query_fragment (strip_scheme u)"
    by (simp add: last_py_split_scheme [OF assms] hd_py_split_char takeWhile_twice
        strip_query_fragment_def)
  have rest: "drop 1 xs = tl xs" for xs :: "string list"
    by (simp add: drop_Suc)
  show ?thesis
    unfolding get_filename_from_url_def deriveName_def Let_def path
    unfolding py_split_slash pick_base_eq rest hd_py_split_char first_label_def
      truncate_at_last_dot_eq
    by (simp add: segments_nonempty)
qed

text \<open>
  The three examples of the specification, on the program and on the specification's
  algorithm.
\<close>

lemma get_filename_from_url_examples:
  "get_filename_from_url ''https://example.com/docs/guide.html'' = ''docs_guide''"
  "get_filename_from_url ''https://example.com/about'' = ''example_about''"
  "get_filename_from_url ''https://example.com'' = ''example''"
  by code_simp+

lemma deriveName_examples:
  "deriveName ''https://example.com/docs/guide.html'' = ''docs_guide''"
  "deriveName ''https://example.com/about'' = ''example_about''"
  "deriveName ''https://example.com'' = ''example''"
  by code_simp+

text \<open>
  C1. The program does not compute the specification's algorithm on every URL. Step 1
  strips the scheme prefix; the program keeps what follows the last \<open>://\<close> of the whole
  URL, so a URL whose query string holds another URL loses its own host and path. On
  \<^verbatim>\<open>https://example.com/a/b?next=http://other.org/x/y\<close> the program returns \<open>x_y\<close>,
  taken from inside the query string, and the algorithm returns \<open>a_b\<close>.
\<close>

theorem get_filename_from_url_last_scheme:
  "get_filename_from_url ''https://example.com/a/b?next=http://other.org/x/y'' = ''x_y'' \<and>
   deriveName ''https://example.com/a/b?next=http://other.org/x/y'' = ''a_b''"
  by code_simp

text \<open>
  C8. Replacing the illegal characters in a name that \<open>get_filename_from_url\<close> returned
  changes nothing, for every URL.
\<close>

theorem re_sub_illegal_derived_name:
  "re_sub_illegal (get_filename_from_url u) = get_filename_from_url u"
  by (rule re_sub_illegal_id) (rule get_filename_from_url_clean)

theorem re_sub_illegal_derived_name_witness:
  "re_sub_illegal (get_filename_from_url ''http://a.b/c:d/e*f.x.y'') = ''c_d_e_f.x''"
proof -
  have "get_filename_from_url ''http://a.b/c:d/e*f.x.y'' = ''c_d_e_f.x''"
    by code_simp
  with re_sub_illegal_derived_name [of "''http://a.b/c:d/e*f.x.y''"] show ?thesis
    by simp
qed

section \<open>Properties of the batch fetcher\<close>

lemma url_fetch_one: "url (fst (fetch_one env u w)) = u"
  by (simp add: fetch_one_def split: prod.splits sum.splits)

lemma map_url_fetch_all: "map url (fetch_all env us w) = us"
  by (induction us arbitrary: w) (simp_all add: url_fetch_one)

lemma length_fetch_all: "length (fetch_all env us w) = length us"
  by (induction us arbitrary: w) simp_all

lemma fetch_all_nth:
  "i < length us \<Longrightarrow>
     fetch_all env us w ! i = fst (fetch_one env (us ! i) (world_after env (take i us) w))"
proof (induction us arbitrary: i w)
  case Nil
  then show ?case by simp
next
  case (Cons a us)
  then show ?case by (cases i) simp_all
qed

text \<open>The loop, from any index and any accumulators.\<close>

lemma run_loop_eq:
  "run_loop env n (enumerate k us) results trace w =
     (results @ fetch_all env us w,
      trace @ concat (map (\<lambda>(i, u). [HttpGet u, Progress (i + 1) n]) (enumerate k us)),
      world_after env us w)"
proof (induction us arbitrary: k results trace w)
  case Nil
  then show ?case by simp
next
  case (Cons a us)
  show ?case
    by (cases "fetch_one env a w") (simp add: Cons.IH)
qed

lemma run_eq:
  "run env urls w =
     (concat (map (\<lambda>(i, u). [HttpGet u, Progress (i + 1) (length urls)]) (enumerate 0 urls))
        @ [Finished (fetch_all env urls w)],
      world_after env urls w)"
  by (simp add: run_def run_loop_eq)

lemma enumerate_by_index:
  "map (\<lambda>(i, u). f i u) (enumerate 0 us) = map (\<lambda>i. f i (us ! i)) [0..<length us]"
  by (rule nth_equalityI) (simp_all add: nth_enumerate_eq)

lemma trace_by_index:
  "concat (map (\<lambda>(i, u). [HttpGet u, Progress (i + 1) n]) (enumerate 0 us)) =
     concat (map (\<lambda>i. [HttpGet (us ! i), Progress (i + 1) n]) [0..<length us])"
  using enumerate_by_index [of "\<lambda>i u. [HttpGet u, Progress (i + 1) n]" us] by simp

lemma signals_of_trace:
  "signals (concat (map (\<lambda>(i, u). [HttpGet u, Progress (i + 1) n]) (enumerate k us))) =
     map (\<lambda>i. Progress (i + 1) n) (map fst (enumerate k us))"
  unfolding signals_def by (induction us arbitrary: k) simp_all

lemma signals_run:
  "signals (fst (run env urls w)) =
     map (\<lambda>i. Progress (i + 1) (length urls)) [0..<length urls] @ [Finished (fetch_all env urls w)]"
proof -
  have "signals (fst (run env urls w)) =
      signals (concat (map (\<lambda>(i, u). [HttpGet u, Progress (i + 1) (length urls)]) (enumerate 0 urls)))
        @ [Finished (fetch_all env urls w)]"
    by (simp add: run_eq signals_def)
  then show ?thesis
    by (simp only: signals_of_trace map_fst_enumerate add_0)
qed

lemma emitted_batches_trace:
  "emitted_batches (concat (map (\<lambda>(i, u). [HttpGet u, Progress (i + 1) n]) (enumerate k us))) = []"
  by (induction us arbitrary: k) (simp_all add: emitted_batches_def)

lemma emitted_batches_run: "emitted_batches (fst (run env urls w)) = [fetch_all env urls w]"
  using emitted_batches_trace [of "length urls" 0 urls]
  by (simp add: run_eq emitted_batches_def)

text \<open>The result for one URL, by what the collaborators do.\<close>

lemma fetch_one_get_raises:
  "requests_get env u w = (Inl e, w1) \<Longrightarrow>
     fetch_one env u w = (\<lparr>url = u, content = error_prefix @ py_str_of e, success = False\<rparr>, w1)"
  by (simp add: fetch_one_def try_fetch_def)

lemma fetch_one_status_raises:
  "requests_get env u w = (Inr r, w1) \<Longrightarrow> 400 \<le> status_code r \<and> status_code r < 600 \<Longrightarrow>
     fetch_one env u w =
       (\<lparr>url = u, content = error_prefix @ py_str_of (http_error env r), success = False\<rparr>, w1)"
  by (auto simp: fetch_one_def try_fetch_def raise_for_status_def)

lemma fetch_one_text_raises:
  "requests_get env u w = (Inr r, w1) \<Longrightarrow> \<not> (400 \<le> status_code r \<and> status_code r < 600) \<Longrightarrow>
   apparent_text env r = Inl e \<Longrightarrow>
     fetch_one env u w = (\<lparr>url = u, content = error_prefix @ py_str_of e, success = False\<rparr>, w1)"
  by (auto simp: fetch_one_def try_fetch_def raise_for_status_def)

lemma fetch_one_handle_raises:
  "requests_get env u w = (Inr r, w1) \<Longrightarrow> \<not> (400 \<le> status_code r \<and> status_code r < 600) \<Longrightarrow>
   apparent_text env r = Inr t \<Longrightarrow> handle env t w1 = (Inl e, w2) \<Longrightarrow>
     fetch_one env u w = (\<lparr>url = u, content = error_prefix @ py_str_of e, success = False\<rparr>, w2)"
  by (auto simp: fetch_one_def try_fetch_def raise_for_status_def)

lemma fetch_one_converted:
  "requests_get env u w = (Inr r, w1) \<Longrightarrow> \<not> (400 \<le> status_code r \<and> status_code r < 600) \<Longrightarrow>
   apparent_text env r = Inr t \<Longrightarrow> handle env t w1 = (Inr markdown, w2) \<Longrightarrow>
     fetch_one env u w = (\<lparr>url = u, content = markdown, success = True\<rparr>, w2)"
  by (auto simp: fetch_one_def try_fetch_def raise_for_status_def)

lemma error_prefix_bytes:
  "error_prefix = [CHR 0xE9, CHR 0x94, CHR 0x99, CHR 0xE8, CHR 0xAF, CHR 0xAF, CHR '':'', CHR '' '']"
  by (simp add: error_prefix_def)

lemma example_fetch_all: "fetch_all example_env example_urls 0 = [ok_result, bad_result]"
  by (simp add: example_urls_def example_env_def fetch_one_def try_fetch_def raise_for_status_def
      ok_result_def bad_result_def)

text \<open>
  C3, as the specification states it, fails on the statuses outside 2xx: the worker
  asks \<^verbatim>\<open>raise_for_status\<close>, which reports the statuses from 400 to 599 and no other. A
  response with status 304 is not 2xx, and the worker converts its body and records it
  with \<open>success = True\<close>.
\<close>

theorem not_modified_recorded_as_success:
  "fst (requests_get not_modified_env ''http://cached.test/'' 0) = Inr \<lparr>status_code = 304, body = ''''\<rparr> \<and>
   \<not> is_2xx \<lparr>status_code = 304, body = ''''\<rparr> \<and>
   emitted_batches (fst (run not_modified_env [''http://cached.test/''] 0)) =
     [[\<lparr>url = ''http://cached.test/'', content = ''\<newline>'', success = True\<rparr>]]"
  by (simp add: emitted_batches_run not_modified_env_def is_2xx_def fetch_one_def try_fetch_def
      raise_for_status_def)

text \<open>
  C3, amended. The result for the URL at index \<open>i\<close> is decided by what the libraries do
  when the worker turns to it. If \<^verbatim>\<open>requests.get\<close> raises, if the response has a status
  from 400 to 599, if decoding the response raises or if the converter raises, the
  result has \<open>success = False\<close> and its content is the eight bytes of the error prefix
  followed by the description of the exception; otherwise, whatever the status, the
  result has \<open>success = True\<close> and the converter's output as content. In every case the
  batch goes on: it has one result for every URL of the list, in list order.
\<close>

theorem failure_recorded_batch_continues:
  assumes "i < length urls"
    and "emitted_batches (fst (run env urls w)) = [results]"
  shows "length results = length urls \<and> map url results = urls \<and>
    (\<forall>e w1. requests_get env (urls ! i) (world_after env (take i urls) w) = (Inl e, w1) \<longrightarrow>
       results ! i =
         \<lparr>url = urls ! i,
          content = [CHR 0xE9, CHR 0x94, CHR 0x99, CHR 0xE8, CHR 0xAF, CHR 0xAF] @ '': '' @ py_str_of e,
          success = False\<rparr>) \<and>
    (\<forall>r w1. requests_get env (urls ! i) (world_after env (take i urls) w) = (Inr r, w1) \<and>
         400 \<le> status_code r \<and> status_code r < 600 \<longrightarrow>
       results ! i =
         \<lparr>url = urls ! i,
          content = [CHR 0xE9, CHR 0x94, CHR 0x99, CHR 0xE8, CHR 0xAF, CHR 0xAF] @ '': ''
            @ py_str_of (http_error env r),
          success = False\<rparr>) \<and>
    (\<forall>r w1 e. requests_get env (urls ! i) (world_after env (take i urls) w) = (Inr r, w1) \<and>
         \<not> (400 \<le> status_code r \<and> status_code r < 600) \<and> apparent_text env r = Inl e \<longrightarrow>
       results ! i =
         \<lparr>url = urls ! i,
          content = [CHR 0xE9, CHR 0x94, CHR 0x99, CHR 0xE8, CHR 0xAF, CHR 0xAF] @ '': '' @ py_str_of e,
          success = False\<rparr>) \<and>
    (\<forall>r w1 t e w2. requests_get env (urls ! i) (world_after env (take i urls) w) = (Inr r, w1) \<and>
         \<not> (400 \<le> status_code r \<and> status_code r < 600) \<and> apparent_text env r = Inr t \<and>
         handle env t w1 = (Inl e, w2) \<longrightarrow>
       results ! i =
         \<lparr>url = urls ! i,
          content = [CHR 0xE9, CHR 0x94, CHR 0x99, CHR 0xE8, CHR 0xAF, CHR 0xAF] @ '': '' @ py_str_of e,
          success = False\<rparr>) \<and>
    (\<forall>r w1 t markdown w2.
         requests_get env (urls ! i) (world_after env (take i urls) w) = (Inr r, w1) \<and>
         \<not> (400 \<le> status_code r \<and> status_code r < 600) \<and> apparent_text env r = Inr t \<and>
         handle env t w1 = (Inr markdown, w2) \<longrightarrow>
       results ! i = \<lparr>url = urls ! i, content = markdown, success = True\<rparr>)"
proof -
  from assms(2) have results: "results = fetch_all env urls w"
    by (simp add: emitted_batches_run)
  let ?w = "world_after env (take i urls) w"
  have at_i: "results ! i = fst (fetch_one env (urls ! i) ?w)"
    using assms(1) by (simp add: results fetch_all_nth)
  have prefix: "[CHR 0xE9, CHR 0x94, CHR 0x99, CHR 0xE8, CHR 0xAF, CHR 0xAF] @ '': '' @ d = error_prefix @ d"
    for d
    by (simp add: error_prefix_def)
  show ?thesis
    unfolding prefix at_i
    by (auto simp: results length_fetch_all map_url_fetch_all fetch_one_get_raises
        fetch_one_status_raises fetch_one_text_raises fetch_one_handle_raises fetch_one_converted)
qed

theorem failure_recorded_batch_continues_witness:
  "(3::nat) < length broken_urls \<and>
   emitted_batches (fst (run broken_pages_env broken_urls 0)) =
     [[\<lparr>url = ''http://down.test/'', content = error_prefix @ ''timed out'', success = False\<rparr>,
       \<lparr>url = ''http://gone.test/'', content = error_prefix @ ''503 Server Error'', success = False\<rparr>,
       \<lparr>url = ''http://bytes.test/'', content = error_prefix @ ''cannot decode'', success = False\<rparr>,
       \<lparr>url = ''http://markup.test/'', content = error_prefix @ ''bad markup'', success = False\<rparr>,
       \<lparr>url = ''http://fine.test/'', content = ''fine'', success = True\<rparr>]] \<and>
   world_after broken_pages_env (take 3 broken_urls) 0 = 3 \<and>
   requests_get broken_pages_env (broken_urls ! 3) 3 = (Inr \<lparr>status_code = 200, body = ''<p>''\<rparr>, 4) \<and>
   \<not> (400 \<le> status_code \<lparr>status_code = 200, body = ''<p>''\<rparr> \<and>
       status_code \<lparr>status_code = 200, body = ''<p>''\<rparr> < 600) \<and>
   apparent_text broken_pages_env \<lparr>status_code = 200, body = ''<p>''\<rparr> = Inr ''<p>'' \<and>
   handle broken_pages_env ''<p>'' 4 = (Inl (PyException ''bad markup''), 5) \<and>
   [\<lparr>url = ''http://down.test/'', content = error_prefix @ ''timed out'', success = False\<rparr>,
    \<lparr>url = ''http://gone.test/'', content = error_prefix @ ''503 Server Error'', success = False\<rparr>,
    \<lparr>url = ''http://bytes.test/'', content = error_prefix @ ''cannot decode'', success = False\<rparr>,
    \<lparr>url = ''http://markup.test/'', content = error_prefix @ ''bad markup'', success = False\<rparr>,
    \<lparr>url = ''http://fine.test/'', content = ''fine'', success = True\<rparr>] ! 3 =
     \<lparr>url = ''http://markup.test/'',
      content = [CHR 0xE9, CHR 0x94, CHR 0x99, CHR 0xE8, CHR 0xAF, CHR 0xAF] @ '': '' @ ''bad markup'',
      success = False\<rparr>"
proof -
  let ?batch =
    "[\<lparr>url = ''http://down.test/'', content = error_prefix @ ''timed out'', success = False\<rparr>,
      \<lparr>url = ''http://gone.test/'', content = error_prefix @ ''503 Server Error'', success = False\<rparr>,
      \<lparr>url = ''http://bytes.test/'', content = error_prefix @ ''cannot decode'', success = False\<rparr>,
      \<lparr>url = ''http://markup.test/'', content = error_prefix @ ''bad markup'', success = False\<rparr>,
      \<lparr>url = ''http://fine.test/'', content = ''fine'', success = True\<rparr>]"
  have len: "(3::nat) < length broken_urls"
    by (simp add: broken_urls_def)
  have batch: "emitted_batches (fst (run broken_pages_env broken_urls 0)) = [?batch]"
    by (simp add: emitted_batches_run broken_urls_def broken_pages_env_def fetch_one_def
        try_fetch_def raise_for_status_def)
  have before: "world_after broken_pages_env (take 3 broken_urls) 0 = 3"
    by (simp add: broken_urls_def broken_pages_env_def fetch_one_def try_fetch_def
        raise_for_status_def)
  have got: "requests_get broken_pages_env (broken_urls ! 3) 3
      = (Inr \<lparr>status_code = 200, body = ''<p>''\<rparr>, 4)"
    by (simp add: broken_urls_def broken_pages_env_def)
  have decoded: "apparent_text broken_pages_env \<lparr>status_code = 200, body = ''<p>''\<rparr> = Inr ''<p>''"
    by (simp add: broken_pages_env_def)
  have conv: "handle broken_pages_env ''<p>'' 4 = (Inl (PyException ''bad markup''), 5)"
    by (simp add: broken_pages_env_def)
  have url3: "broken_urls ! 3 = ''http://markup.test/''"
    by (simp add: broken_urls_def)
  from failure_recorded_batch_continues [OF len batch] got decoded conv
  have "?batch ! 3 =
     \<lparr>url = ''http://markup.test/'',
      content = [CHR 0xE9, CHR 0x94, CHR 0x99, CHR 0xE8, CHR 0xAF, CHR 0xAF] @ '': '' @ ''bad markup'',
      success = False\<rparr>"
    unfolding before url3 by simp
  with len batch before got decoded conv show ?thesis
    by simp
qed

text \<open>
  C7. For a list of \<open>n\<close> URLs the worker requests the URLs in list order and emits a
  progress signal after each, the one after the URL at index \<open>i\<close> carrying \<open>(i + 1, n)\<close>;
  the signals an observer receives are these \<open>n\<close> progress signals in that order,
  followed by one \<open>finished\<close> signal, the last event of the run.
\<close>

theorem progress_in_order_then_finished:
  "fst (run env urls w) =
     concat (map (\<lambda>i. [HttpGet (urls ! i), Progress (i + 1) (length urls)]) [0..<length urls])
       @ [Finished (fetch_all env urls w)] \<and>
   signals (fst (run env urls w)) =
     map (\<lambda>i. Progress (i + 1) (length urls)) [0..<length urls] @ [Finished (fetch_all env urls w)]"
proof (rule conjI)
  show "fst (run env urls w) =
     concat (map (\<lambda>i. [HttpGet (urls ! i), Progress (i + 1) (length urls)]) [0..<length urls])
       @ [Finished (fetch_all env urls w)]"
    by (simp only: run_eq fst_conv trace_by_index)
  show "signals (fst (run env urls w)) =
     map (\<lambda>i. Progress (i + 1) (length urls)) [0..<length urls] @ [Finished (fetch_all env urls w)]"
    by (rule signals_run)
qed

theorem progress_in_order_then_finished_witness:
  "fst (run example_env example_urls 0) =
     [HttpGet ''https://ok.test/a'', Progress 1 2, HttpGet ''https://bad.test/x'', Progress 2 2,
      Finished [ok_result, bad_result]] \<and>
   signals (fst (run example_env example_urls 0)) =
     [Progress 1 2, Progress 2 2, Finished [ok_result, bad_result]]"
proof -
  have trace: "concat (map (\<lambda>i. [HttpGet (example_urls ! i), Progress (i + 1) (length example_urls)])
      [0..<length example_urls]) =
      [HttpGet ''https://ok.test/a'', Progress 1 2, HttpGet ''https://bad.test/x'', Progress 2 2]"
    by code_simp
  have progress: "map (\<lambda>i. Progress (i + 1) (length example_urls)) [0..<length example_urls] =
      [Progress 1 2, Progress 2 2]"
    by code_simp
  show ?thesis
    by (rule progress_in_order_then_finished
        [of example_env example_urls 0, unfolded trace progress example_fetch_all append.simps])
qed

section \<open>Properties of the session\<close>

subsection \<open>The worker's list is its own\<close>

lemma gui_step_frame:
  "fetch_thread (gui_step s act) = fetch_thread s \<and>
   next_addr (gui_step s act) = next_addr s \<and>
   url_list (gui_step s act) = url_list s \<and>
   markdown_results (gui_step s act) = markdown_results s \<and>
   preview_text (gui_step s act) = preview_text s \<and>
   merge_checked (gui_step s act) = merge_checked s"
  by (cases act) (auto simp: add_url_def remove_url_def clear_urls_def split: sum.splits if_splits)

lemma gui_step_heap: "a \<noteq> url_list s \<Longrightarrow> heap (gui_step s act) a = heap s a"
  by (cases act) (auto simp: add_url_def remove_url_def clear_urls_def split: sum.splits if_splits)

lemma gui_steps_frame:
  "fetch_thread (foldl gui_step s acts) = fetch_thread s \<and>
   next_addr (foldl gui_step s acts) = next_addr s \<and>
   url_list (foldl gui_step s acts) = url_list s \<and>
   markdown_results (foldl gui_step s acts) = markdown_results s \<and>
   preview_text (foldl gui_step s acts) = preview_text s \<and>
   merge_checked (foldl gui_step s acts) = merge_checked s"
  by (induction acts arbitrary: s) (simp_all add: gui_step_frame)

lemma gui_steps_heap: "a \<noteq> url_list s \<Longrightarrow> heap (foldl gui_step s acts) a = heap s a"
proof (induction acts arbitrary: s)
  case Nil
  then show ?case by simp
next
  case (Cons act acts)
  from Cons.prems have "a \<noteq> url_list (gui_step s act)"
    by (simp add: gui_step_frame)
  then have "heap (foldl gui_step (gui_step s act) acts) a = heap (gui_step s act) a"
    by (rule Cons.IH)
  with Cons.prems show ?case
    by (simp add: gui_step_heap)
qed

lemma start_fetch_launches:
  assumes "url_list s < next_addr s" and "heap s (url_list s) \<noteq> []"
  shows "fetch_thread (start_fetch s) = Some (next_addr s)"
    and "heap (start_fetch s) (next_addr s) = heap s (url_list s)"
    and "url_list (start_fetch s) = url_list s"
  using assms by (simp_all add: start_fetch_def)

lemma worker_list_kept:
  assumes "url_list s < next_addr s" and "heap s (url_list s) \<noteq> []"
  shows "fetch_thread (foldl gui_step (start_fetch s) acts) = Some (next_addr s)"
    and "heap (foldl gui_step (start_fetch s) acts) (next_addr s) = heap s (url_list s)"
proof -
  show "fetch_thread (foldl gui_step (start_fetch s) acts) = Some (next_addr s)"
    using assms by (simp add: gui_steps_frame start_fetch_launches)
  from assms have "next_addr s \<noteq> url_list (start_fetch s)"
    by (simp add: start_fetch_launches)
  then have "heap (foldl gui_step (start_fetch s) acts) (next_addr s) = heap (start_fetch s) (next_addr s)"
    by (rule gui_steps_heap)
  with assms show "heap (foldl gui_step (start_fetch s) acts) (next_addr s) = heap s (url_list s)"
    by (simp add: start_fetch_launches)
qed

subsection \<open>The merged document\<close>

lemma merged_loop_eq: "concat (merged_loop results acc) = concat acc @ merged_document results"
  by (induction results arbitrary: acc) (simp_all add: merged_document_def)

lemma preview_text_fetch_completed:
  "preview_text (fetch_completed results s) = concat (merged_loop results [])"
  by (simp add: fetch_completed_def Let_def)

lemma map_of_put_file:
  "map_of (put_file p c fs) q = (if q = p then Some c else map_of fs q)"
proof -
  have "q \<noteq> p \<Longrightarrow> map_of (filter (\<lambda>entry. fst entry \<noteq> p) fs) q = map_of fs q"
    by (induction fs) auto
  then show ?thesis
    by (simp add: put_file_def)
qed

subsection \<open>Claims about fetching\<close>

lemma example_session_list:
  "url_list example_session = 0" "next_addr example_session = 1"
  "heap example_session 0 = example_urls"
  by (simp_all add: example_session_def init_session_def add_url_def py_startswith_def
      example_urls_def)

text \<open>
  C2. When a fetch is started on a non-empty URL list, a worker is launched on a list
  of its own that holds the URLs of the live list at that moment; whatever the user
  then does to the live list (add, remove, clear, in any number and order), the batch
  the worker emits on completion has exactly one result per URL of the list at launch,
  the result at index \<open>i\<close> carrying the URL at index \<open>i\<close>.
\<close>

theorem batch_in_launch_order:
  assumes "url_list s < next_addr s" and "heap s (url_list s) = urls" and "urls \<noteq> []"
  shows "\<exists>a results.
    fetch_thread (foldl gui_step (start_fetch s) acts) = Some a \<and>
    emitted_batches (fst (run env (heap (foldl gui_step (start_fetch s) acts) a) w)) = [results] \<and>
    length results = length urls \<and>
    (\<forall>i<length urls. url (results ! i) = urls ! i)"
proof -
  let ?s' = "foldl gui_step (start_fetch s) acts"
  from assms have thread: "fetch_thread ?s' = Some (next_addr s)"
    and kept: "heap ?s' (next_addr s) = urls"
    using worker_list_kept [of s acts] by simp_all
  have batch: "emitted_batches (fst (run env (heap ?s' (next_addr s)) w)) = [fetch_all env urls w]"
    by (simp add: kept emitted_batches_run)
  have "url (fetch_all env urls w ! i) = urls ! i" if "i < length urls" for i
    using that nth_map [of i "fetch_all env urls w" url]
    by (simp add: length_fetch_all map_url_fetch_all)
  with thread batch show ?thesis
    by (simp add: length_fetch_all)
qed

theorem batch_in_launch_order_witness:
  "url_list example_session < next_addr example_session \<and>
   heap example_session (url_list example_session) = example_urls \<and>
   example_urls \<noteq> [] \<and>
   heap (foldl gui_step (start_fetch example_session) [ClearUrls, AddUrl ''http://late.test/''])
     (url_list example_session) = [''http://late.test/''] \<and>
   (\<exists>a results.
      fetch_thread (foldl gui_step (start_fetch example_session) [ClearUrls, AddUrl ''http://late.test/''])
        = Some a \<and>
      emitted_batches (fst (run example_env
        (heap (foldl gui_step (start_fetch example_session) [ClearUrls, AddUrl ''http://late.test/'']) a) 0))
        = [results] \<and>
      length results = length example_urls \<and>
      url (results ! 0) = example_urls ! 0 \<and> url (results ! 1) = example_urls ! 1)"
proof -
  have pre: "url_list example_session < next_addr example_session"
    "heap example_session (url_list example_session) = example_urls" "example_urls \<noteq> []"
    by (simp_all add: example_session_list) (simp add: example_urls_def)
  have live: "heap (foldl gui_step (start_fetch example_session) [ClearUrls, AddUrl ''http://late.test/''])
     (url_list example_session) = [''http://late.test/'']"
    by (simp add: example_session_list start_fetch_def clear_urls_def add_url_def
        py_startswith_def example_urls_def)
  have len: "length example_urls = 2"
    by (simp add: example_urls_def)
  from batch_in_launch_order [OF pre, of "[ClearUrls, AddUrl ''http://late.test/'']" example_env 0]
  obtain a results where
    "fetch_thread (foldl gui_step (start_fetch example_session) [ClearUrls, AddUrl ''http://late.test/''])
        = Some a"
    "emitted_batches (fst (run example_env
        (heap (foldl gui_step (start_fetch example_session) [ClearUrls, AddUrl ''http://late.test/'']) a) 0))
        = [results]"
    "length results = length example_urls"
    "\<forall>i<length example_urls. url (results ! i) = example_urls ! i"
    by blast
  with pre live len show ?thesis
    by (intro conjI exI [of _ a] exI [of _ results]) simp_all
qed

text \<open>
  C10. When the URL list is empty, \<open>start_fetch\<close> only shows a warning: no worker is
  created, no list is allocated, and the result batch, the preview text and the
  enabled state of the fetch and save buttons are what they were, as is every other
  part of the session.
\<close>

theorem start_fetch_empty_rejected:
  assumes "heap s (url_list s) = []"
  shows "start_fetch s = s\<lparr>shown := shown s @ [Warning txt_notice txt_add_url_first]\<rparr> \<and>
    fetch_thread (start_fetch s) = fetch_thread s \<and>
    heap (start_fetch s) = heap s \<and>
    next_addr (start_fetch s) = next_addr s \<and>
    markdown_results (start_fetch s) = markdown_results s \<and>
    preview_text (start_fetch s) = preview_text s \<and>
    fetch_btn_enabled (start_fetch s) = fetch_btn_enabled s \<and>
    save_btn_enabled (start_fetch s) = save_btn_enabled s"
  using assms by (simp add: start_fetch_def)

theorem start_fetch_empty_rejected_witness:
  "heap (fetch_completed [ok_result] init_session) (url_list (fetch_completed [ok_result] init_session)) = [] \<and>
   start_fetch (fetch_completed [ok_result] init_session) =
     (fetch_completed [ok_result] init_session)\<lparr>shown := [Warning txt_notice txt_add_url_first]\<rparr> \<and>
   fetch_thread (start_fetch (fetch_completed [ok_result] init_session)) = None \<and>
   markdown_results (start_fetch (fetch_completed [ok_result] init_session)) = [ok_result] \<and>
   preview_text (start_fetch (fetch_completed [ok_result] init_session)) =
     preview_text (fetch_completed [ok_result] init_session) \<and>
   fetch_btn_enabled (start_fetch (fetch_completed [ok_result] init_session)) \<and>
   save_btn_enabled (start_fetch (fetch_completed [ok_result] init_session))"
proof -
  have empty: "heap (fetch_completed [ok_result] init_session)
      (url_list (fetch_completed [ok_result] init_session)) = []"
    by (simp add: fetch_completed_def init_session_def Let_def)
  from start_fetch_empty_rejected [OF empty] empty show ?thesis
    by (simp add: fetch_completed_def init_session_def Let_def)
qed

section \<open>Properties of saving\<close>

subsection \<open>The collision loop\<close>








subsection \<open>One write attempt\<close>


lemma write_attempt_others:
  "p \<noteq> q \<Longrightarrow> map_of (files (write_attempt outcome q doc w)) p = map_of (files w) p"
  by (simp add: write_attempt_def map_of_put_file split: io_outcome.splits option.splits)

lemma write_attempt_written:
  "map_of (files (write_attempt Written q doc w)) q = Some doc"
  by (simp add: write_attempt_def map_of_put_file)

lemma opened_write_attempt: "opened (write_attempt outcome q doc w) = opened w @ [q]"
  by (simp add: write_attempt_def)

subsection \<open>The split loop\<close>


declare save_split_loop.simps(2) [simp del]












lemma save_markdown_merged:
  assumes "markdown_results s \<noteq> []" and "merge_checked s" and "save_file_name ui \<noteq> []"
    and "write_outcome d (length (opened w)) = Written"
  shows "save_markdown ui d s w =
    (Inr (s\<lparr>shown := shown s @ [Information txt_success (txt_saved_to @ save_file_name ui)]\<rparr>),
     write_attempt Written (UserPath (save_file_name ui)) (to_plain_text ui (preview_text s)) w)"
  using assms by (simp add: save_markdown_def Let_def)

text \<open>
  \<^verbatim>\<open>file_path.exists()\<close> is outside the \<^verbatim>\<open>try\<close>: when it raises, \<^verbatim>\<open>save_markdown\<close> raises.
  A page whose derived name has 303 bytes, on a disk that refuses names of more than
  255 bytes, ends the save before any file is opened and before the tally is shown,
  although the next page of the batch could have been written.
\<close>

lemma split_save_aborts_when_exists_raises:
  "length (get_filename_from_url (url long_result)) = 303 \<and>
   (case fst (save_markdown example_toolkit example_disk long_split_session empty_world) of
      Inl e \<Rightarrow> e = PyException ''[Errno 36] File name too long''
    | Inr s \<Rightarrow> False) \<and>
   snd (save_markdown example_toolkit example_disk long_split_session empty_world) = empty_world"
  by code_simp

subsection \<open>Claims about saving\<close>









text \<open>
  C6, as the specification states it, fails where the preview widget does not return
  the text it was given: the merged save writes what \<^verbatim>\<open>toPlainText()\<close> returns, and Qt
  documents that a no-break space comes back as a space. A page whose content is
  \<open>a\<close>, U+00A0, \<open>b\<close> is saved with a space between \<open>a\<close> and \<open>b\<close>, which is not the
  concatenation of heading, blank line, content and rule.
\<close>

theorem merged_save_alters_no_break_space:
  "merged_document [nbsp_result] =
     ''# https://ok.test/a\<newline>\<newline>a'' @ [CHR 0xC2, CHR 0xA0] @ ''b\<newline>\<newline>---\<newline>\<newline>'' \<and>
   map_of (files (snd (save_markdown example_toolkit example_disk
       (fetch_completed [nbsp_result] init_session) empty_world))) (UserPath ''merged.md'')
     = Some ''# https://ok.test/a\<newline>\<newline>a b\<newline>\<newline>---\<newline>\<newline>'' \<and>
   map_of (files (snd (save_markdown example_toolkit example_disk
       (fetch_completed [nbsp_result] init_session) empty_world))) (UserPath ''merged.md'')
     \<noteq> Some (merged_document [nbsp_result])"
  by code_simp

text \<open>
  C6, amended. Once a non-empty batch has completed, a merged save whose dialog returned
  a path and whose write succeeds opens that one path and leaves in it what the preview
  widget returns for the merged document of the batch: for every result in batch order,
  the heading line with its URL, a blank line, its content (Markdown or error text
  alike) and the horizontal rule. The file is that document itself whenever the widget
  returns it unchanged. No other file changes.
\<close>

theorem merged_save_document:
  assumes "results \<noteq> []" and "merge_checked s" and "save_file_name ui = p" and "p \<noteq> []"
    and "write_outcome d (length (opened w)) = Written"
  shows "map_of (files (snd (save_markdown ui d (fetch_completed results s) w))) (UserPath p)
      = Some (to_plain_text ui (merged_document results)) \<and>
    (to_plain_text ui (merged_document results) = merged_document results \<longrightarrow>
       map_of (files (snd (save_markdown ui d (fetch_completed results s) w))) (UserPath p)
         = Some (merged_document results)) \<and>
    opened (snd (save_markdown ui d (fetch_completed results s) w)) = opened w @ [UserPath p] \<and>
    (\<forall>q. q \<noteq> UserPath p \<longrightarrow>
       map_of (files (snd (save_markdown ui d (fetch_completed results s) w))) q = map_of (files w) q)"
proof -
  let ?s = "fetch_completed results s"
  from assms(1,2) have "markdown_results ?s \<noteq> []" and "merge_checked ?s"
    by (simp_all add: fetch_completed_def Let_def)
  with assms(3-5) have "snd (save_markdown ui d ?s w) =
      write_attempt Written (UserPath p) (to_plain_text ui (preview_text ?s)) w"
    using save_markdown_merged [of ?s ui d w] by simp
  moreover have "preview_text ?s = merged_document results"
    using merged_loop_eq [of results "[]"] by (simp add: preview_text_fetch_completed)
  ultimately show ?thesis
    by (simp add: write_attempt_written write_attempt_others opened_write_attempt)
qed

theorem merged_save_document_witness:
  "[ok_result, bad_result] \<noteq> [] \<and> merge_checked init_session \<and>
   save_file_name example_toolkit = ''merged.md'' \<and>
   write_outcome example_disk (length (opened notes_world)) = Written \<and>
   merged_document [ok_result, bad_result] =
     ''# https://ok.test/a\<newline>\<newline>hi\<newline>\<newline>\<newline>---\<newline>\<newline>''
       @ ''# https://bad.test/x\<newline>\<newline>'' @ [CHR 0xE9, CHR 0x94, CHR 0x99, CHR 0xE8, CHR 0xAF, CHR 0xAF]
       @ '': 404 Client Error\<newline>\<newline>---\<newline>\<newline>'' \<and>
   to_plain_text example_toolkit (merged_document [ok_result, bad_result])
     = merged_document [ok_result, bad_result] \<and>
   map_of (files (snd (save_markdown example_toolkit example_disk
       (fetch_completed [ok_result, bad_result] init_session) notes_world))) (UserPath ''merged.md'')
     = Some (''# https://ok.test/a\<newline>\<newline>hi\<newline>\<newline>\<newline>---\<newline>\<newline>''
         @ ''# https://bad.test/x\<newline>\<newline>'' @ [CHR 0xE9, CHR 0x94, CHR 0x99, CHR 0xE8, CHR 0xAF, CHR 0xAF]
         @ '': 404 Client Error\<newline>\<newline>---\<newline>\<newline>'') \<and>
   opened (snd (save_markdown example_toolkit example_disk
       (fetch_completed [ok_result, bad_result] init_session) notes_world)) = [UserPath ''merged.md''] \<and>
   map_of (files (snd (save_markdown example_toolkit example_disk
       (fetch_completed [ok_result, bad_result] init_session) notes_world))) (InFolder ''out'' ''notes.md'')
     = Some ''keep''"
proof -
  let ?doc = "''# https://ok.test/a\<newline>\<newline>hi\<newline>\<newline>\<newline>---\<newline>\<newline>''
       @ ''# https://bad.test/x\<newline>\<newline>'' @ [CHR 0xE9, CHR 0x94, CHR 0x99, CHR 0xE8, CHR 0xAF, CHR 0xAF]
       @ '': 404 Client Error\<newline>\<newline>---\<newline>\<newline>''"
  have pre: "[ok_result, bad_result] \<noteq> []" "merge_checked init_session"
    "save_file_name example_toolkit = ''merged.md''" "''merged.md'' \<noteq> []"
    "write_outcome example_disk (length (opened notes_world)) = Written"
    by (simp_all add: init_session_def example_toolkit_def example_disk_def)
  have doc: "merged_document [ok_result, bad_result] = ?doc"
    by code_simp
  have same: "to_plain_text example_toolkit ?doc = ?doc"
    by code_simp
  have other: "InFolder ''out'' ''notes.md'' \<noteq> UserPath ''merged.md''"
    by simp
  have before: "opened notes_world = []"
    "map_of (files notes_world) (InFolder ''out'' ''notes.md'') = Some ''keep''"
    by (simp_all add: notes_world_def)
  have same': "to_plain_text example_toolkit (merged_document [ok_result, bad_result])
      = merged_document [ok_result, bad_result]"
    unfolding doc by (rule same)
  note inst = merged_save_document [where d = example_disk and w = notes_world, OF pre]
  from inst same' have a: "map_of (files (snd (save_markdown example_toolkit example_disk
       (fetch_completed [ok_result, bad_result] init_session) notes_world))) (UserPath ''merged.md'')
     = Some (merged_document [ok_result, bad_result])"
    by blast
  from inst have c: "opened (snd (save_markdown example_toolkit example_disk
       (fetch_completed [ok_result, bad_result] init_session) notes_world)) = [UserPath ''merged.md'']"
    by (simp add: before)
  from inst other have k: "map_of (files (snd (save_markdown example_toolkit example_disk
       (fetch_completed [ok_result, bad_result] init_session) notes_world))) (InFolder ''out'' ''notes.md'')
     = Some ''keep''"
    by (simp add: before)
  from pre(1-3,5) doc same' a [unfolded doc] c k show ?thesis
    by blast
qed

text \<open>
  C9, as stated, fails for the same reason: the file holds what the preview widget
  returns, which for a page with a no-break space is not the string that
  \<open>fetch_completed\<close> assembled and set.
\<close>

theorem merged_save_not_assembled_string:
  "preview_text nbsp_merged_session =
     ''# https://ok.test/a\<newline>\<newline>a'' @ [CHR 0xC2, CHR 0xA0] @ ''b\<newline>\<newline>---\<newline>\<newline>'' \<and>
   map_of (files (snd (save_markdown example_toolkit example_disk nbsp_merged_session empty_world)))
     (UserPath ''merged.md'') \<noteq> Some (preview_text nbsp_merged_session)"
  by code_simp

text \<open>
  C9, amended. A merged save writes the preview widget's text: what it leaves in the
  chosen file is what \<^verbatim>\<open>toPlainText()\<close> returns for the string last set on the preview,
  and nothing else of the session decides it, so two sessions with the same preview
  save the same file whatever their result batches are. The string set on the preview
  is the one \<open>fetch_completed\<close> assembled, and editing the URL list afterwards does not
  change it. The file is that string itself whenever the widget returns it unchanged.
\<close>

theorem merged_save_is_preview:
  assumes "markdown_results s \<noteq> []" and "merge_checked s" and "save_file_name ui = p" and "p \<noteq> []"
    and "write_outcome d (length (opened w)) = Written"
  shows "map_of (files (snd (save_markdown ui d s w))) (UserPath p)
      = Some (to_plain_text ui (preview_text s)) \<and>
    (to_plain_text ui (preview_text s) = preview_text s \<longrightarrow>
       map_of (files (snd (save_markdown ui d s w))) (UserPath p) = Some (preview_text s)) \<and>
    (\<forall>s'. markdown_results s' \<noteq> [] \<and> merge_checked s' \<and> preview_text s' = preview_text s \<longrightarrow>
       snd (save_markdown ui d s' w) = snd (save_markdown ui d s w)) \<and>
    (\<forall>results s0 acts. s = foldl gui_step (fetch_completed results s0) acts \<longrightarrow>
       preview_text s = concat (merged_loop results []))"
proof -
  have saved: "snd (save_markdown ui d t w) =
      write_attempt Written (UserPath p) (to_plain_text ui (preview_text t)) w"
    if "markdown_results t \<noteq> []" and "merge_checked t" for t
    using that assms(3-5) save_markdown_merged [of t ui d w] by simp
  have "map_of (files (snd (save_markdown ui d s w))) (UserPath p)
      = Some (to_plain_text ui (preview_text s))"
    using assms(1,2) by (simp add: saved write_attempt_written)
  moreover have "snd (save_markdown ui d s' w) = snd (save_markdown ui d s w)"
    if "markdown_results s' \<noteq> []" "merge_checked s'" "preview_text s' = preview_text s" for s'
    using that assms(1,2) by (simp add: saved)
  moreover have "preview_text s = concat (merged_loop results [])"
    if "s = foldl gui_step (fetch_completed results s0) acts" for results s0 acts
    using that by (simp add: gui_steps_frame preview_text_fetch_completed)
  ultimately show ?thesis
    by auto
qed

theorem merged_save_is_preview_witness:
  "markdown_results mixed_merged_session \<noteq> [] \<and> merge_checked mixed_merged_session \<and>
   save_file_name example_toolkit = ''merged.md'' \<and>
   write_outcome example_disk (length (opened empty_world)) = Written \<and>
   to_plain_text example_toolkit (preview_text mixed_merged_session) = preview_text mixed_merged_session \<and>
   map_of (files (snd (save_markdown example_toolkit example_disk mixed_merged_session empty_world)))
     (UserPath ''merged.md'') = Some (preview_text mixed_merged_session) \<and>
   markdown_results (mixed_merged_session\<lparr>markdown_results := [guide_result]\<rparr>) \<noteq>
     markdown_results mixed_merged_session \<and>
   snd (save_markdown example_toolkit example_disk
          (mixed_merged_session\<lparr>markdown_results := [guide_result]\<rparr>) empty_world)
     = snd (save_markdown example_toolkit example_disk mixed_merged_session empty_world) \<and>
   mixed_merged_session = foldl gui_step (fetch_completed [ok_result, bad_result] init_session) [] \<and>
   preview_text mixed_merged_session = concat (merged_loop [ok_result, bad_result] [])"
proof -
  have pre: "markdown_results mixed_merged_session \<noteq> []" "merge_checked mixed_merged_session"
    "save_file_name example_toolkit = ''merged.md''" "''merged.md'' \<noteq> []"
    "write_outcome example_disk (length (opened empty_world)) = Written"
    by (simp_all add: mixed_merged_session_def fetch_completed_def Let_def init_session_def
        example_toolkit_def example_disk_def)
  have same: "to_plain_text example_toolkit (preview_text mixed_merged_session)
      = preview_text mixed_merged_session"
    by code_simp
  have other: "markdown_results (mixed_merged_session\<lparr>markdown_results := [guide_result]\<rparr>) \<noteq> []"
    "merge_checked (mixed_merged_session\<lparr>markdown_results := [guide_result]\<rparr>)"
    "preview_text (mixed_merged_session\<lparr>markdown_results := [guide_result]\<rparr>)
       = preview_text mixed_merged_session"
    "markdown_results (mixed_merged_session\<lparr>markdown_results := [guide_result]\<rparr>) \<noteq>
       markdown_results mixed_merged_session"
    using pre(2) by (simp_all add: mixed_merged_session_def fetch_completed_def Let_def)
  have origin: "mixed_merged_session = foldl gui_step (fetch_completed [ok_result, bad_result] init_session) []"
    by (simp add: mixed_merged_session_def)
  from merged_save_is_preview [where d = example_disk and w = empty_world, OF pre] have
    "to_plain_text example_toolkit (preview_text mixed_merged_session) = preview_text mixed_merged_session
       \<Longrightarrow> map_of (files (snd (save_markdown example_toolkit example_disk mixed_merged_session empty_world)))
       (UserPath ''merged.md'') = Some (preview_text mixed_merged_session)"
    "\<And>s'. markdown_results s' \<noteq> [] \<and> merge_checked s' \<and>
        preview_text s' = preview_text mixed_merged_session \<Longrightarrow>
        snd (save_markdown example_toolkit example_disk s' empty_world)
          = snd (save_markdown example_toolkit example_disk mixed_merged_session empty_world)"
    "\<And>results s0 acts. mixed_merged_session = foldl gui_step (fetch_completed results s0) acts \<Longrightarrow>
        preview_text mixed_merged_session = concat (merged_loop results [])"
    by blast+
  with pre(1-3,5) same other origin show ?thesis
    by blast
qed


end
